theory Spec2Isabelle
  imports Main "HOL-Library.Word"
begin

unbundle bit_operations_syntax

section \<open>Machine integers\<close>

type_synonym u32 = "32 word"
type_synonym u64 = "64 word"

section \<open>The platform and the core's registers\<close>

text \<open>
  \<open>cm4u_core.h\<close> is compiled against CMSIS-Core (\<open>core_cm4.h\<close>) and the device header.
  What those headers decide at compile time is a parameter of the model: whether the
  macros \<open>DWT\<close> and \<open>CoreDebug\<close> are defined (the header tests them with
  \<^verbatim>\<open>#if defined(DWT) && defined(CoreDebug)\<close> and \<^verbatim>\<open>#if defined(DWT)\<close>), and the two bit
  masks the initialisation uses. The masks are not fixed here; no result below depends
  on their value.
\<close>

record platform =
  DWT_defined :: bool
  CoreDebug_defined :: bool
  CoreDebug_DEMCR_TRCENA_Msk :: u32
  DWT_CTRL_CYCCNTENA_Msk :: u32

text \<open>
  The registers the modelled functions touch. \<open>PRIMASK\<close> is the one-bit interrupt mask
  of the core (set: maskable interrupts disabled); \<open>DEMCR\<close> is \<^verbatim>\<open>CoreDebug->DEMCR\<close>,
  \<open>DWT_CTRL\<close> is \<^verbatim>\<open>DWT->CTRL\<close> and \<open>DWT_CYCCNT\<close> is \<^verbatim>\<open>DWT->CYCCNT\<close>, the 32-bit cycle
  counter. The functions are modelled by explicit state passing over this record.
\<close>

record hw =
  PRIMASK :: bool
  DEMCR :: u32
  DWT_CTRL :: u32
  DWT_CYCCNT :: u32

subsection \<open>The CMSIS intrinsics used by the critical-section helpers\<close>

text \<open>
  \<^verbatim>\<open>__get_PRIMASK()\<close> reads the mask register zero-extended to 32 bits,
  \<^verbatim>\<open>__set_PRIMASK(x)\<close> writes bit 0 of \<open>x\<close> to it, \<^verbatim>\<open>__disable_irq()\<close> sets it
  (the header's comment: ``PRIMASK = 1'') and \<^verbatim>\<open>__enable_irq()\<close> clears it
  (``PRIMASK = 0''). The names drop the two leading underscores.
\<close>

definition get_PRIMASK :: "hw \<Rightarrow> u32" where
  "get_PRIMASK s = of_bool (PRIMASK s)"

definition set_PRIMASK :: "u32 \<Rightarrow> hw \<Rightarrow> hw" where
  "set_PRIMASK priMask s = s\<lparr>PRIMASK := bit priMask 0\<rparr>"

definition disable_irq :: "hw \<Rightarrow> hw" where
  "disable_irq s = s\<lparr>PRIMASK := True\<rparr>"

definition enable_irq :: "hw \<Rightarrow> hw" where
  "enable_irq s = s\<lparr>PRIMASK := False\<rparr>"

section \<open>Interrupt and critical-section helpers (cm4u\_core.h, lines 62--97)\<close>

definition cm4u_global_irq_disable :: "hw \<Rightarrow> hw" where
  "cm4u_global_irq_disable s = disable_irq s"

definition cm4u_global_irq_enable :: "hw \<Rightarrow> hw" where
  "cm4u_global_irq_enable s = enable_irq s"

text \<open>
  \<^verbatim>\<open>
  static inline uint32_t cm4u_critical_enter(void)
  {
      uint32_t primask = __get_PRIMASK();
      __disable_irq();
      return primask;
  }
  \<close>
  The result pairs the returned value with the state the call leaves.
\<close>

definition cm4u_critical_enter :: "hw \<Rightarrow> u32 \<times> hw" where
  "cm4u_critical_enter s =
     (let primask = get_PRIMASK s;
          s = disable_irq s
      in (primask, s))"

text \<open>
  \<^verbatim>\<open>
  static inline void cm4u_critical_exit(uint32_t primask)
  {
      __set_PRIMASK(primask);
  }
  \<close>
\<close>

definition cm4u_critical_exit :: "u32 \<Rightarrow> hw \<Rightarrow> hw" where
  "cm4u_critical_exit primask s = set_PRIMASK primask s"

definition cm4u_get_primask :: "hw \<Rightarrow> u32" where
  "cm4u_get_primask s = get_PRIMASK s"

definition cm4u_set_primask :: "u32 \<Rightarrow> hw \<Rightarrow> hw" where
  "cm4u_set_primask primask s = set_PRIMASK primask s"

section \<open>The DWT cycle counter (cm4u\_core.h, lines 214--260)\<close>

text \<open>
  \<^verbatim>\<open>
  static inline bool cm4u_dwt_init(void)
  {
  #if defined(DWT) && defined(CoreDebug)
      if ((CoreDebug->DEMCR & CoreDebug_DEMCR_TRCENA_Msk) == 0u) {
          CoreDebug->DEMCR |= CoreDebug_DEMCR_TRCENA_Msk;
      }
      DWT->CYCCNT = 0u;
      DWT->CTRL  |= DWT_CTRL_CYCCNTENA_Msk;
      return true;
  #else
      return false;
  #endif
  }
  \<close>
\<close>

definition cm4u_dwt_init :: "platform \<Rightarrow> hw \<Rightarrow> bool \<times> hw" where
  "cm4u_dwt_init p s =
     (if DWT_defined p \<and> CoreDebug_defined p then
        (let s = (if DEMCR s AND CoreDebug_DEMCR_TRCENA_Msk p = 0
                  then s\<lparr>DEMCR := DEMCR s OR CoreDebug_DEMCR_TRCENA_Msk p\<rparr>
                  else s);
             s = s\<lparr>DWT_CYCCNT := 0\<rparr>;
             s = s\<lparr>DWT_CTRL := DWT_CTRL s OR DWT_CTRL_CYCCNTENA_Msk p\<rparr>
         in (True, s))
      else (False, s))"

text \<open>
  \<^verbatim>\<open>
  static inline uint32_t cm4u_dwt_get_cycles(void)
  {
  #if defined(DWT)
      return DWT->CYCCNT;
  #else
      return 0u;
  #endif
  }
  \<close>
\<close>

definition cm4u_dwt_get_cycles :: "platform \<Rightarrow> hw \<Rightarrow> u32" where
  "cm4u_dwt_get_cycles p s = (if DWT_defined p then DWT_CYCCNT s else 0)"

text \<open>
  \<^verbatim>\<open>
  static inline void cm4u_delay_cycles(uint32_t cycles)
  {
  #if defined(DWT)
      uint32_t start = DWT->CYCCNT;
      while ((uint32_t)(DWT->CYCCNT - start) < cycles) {
          __NOP();
      }
  #else
      (void)cycles;
  #endif
  }
  \<close>
  The counter is volatile: every evaluation of \<^verbatim>\<open>DWT->CYCCNT\<close> sees the registers as
  they are at that moment. The environment is a trace \<open>t\<close>: \<open>t 0\<close> is the register state
  at the read that initialises \<open>start\<close>, and \<open>t k\<close> (for \<open>k \<ge> 1\<close>) the state at the
  \<open>k\<close>-th evaluation of the loop condition. Nothing is assumed of the trace, so the
  loop may spin forever (a counter that was never enabled does not move): the loop is a
  partial function, \<open>None\<close> standing for a call that does not return. A call that
  returns yields the number of times it evaluated the loop condition, which is the
  index of the last state it read; without \<open>DWT\<close> that number is \<open>0\<close>.
\<close>

partial_function (option) delay_spin :: "(nat \<Rightarrow> hw) \<Rightarrow> u32 \<Rightarrow> u32 \<Rightarrow> nat \<Rightarrow> nat option" where
  "delay_spin t start cycles k =
     (if DWT_CYCCNT (t k) - start < cycles
      then delay_spin t start cycles (Suc k)
      else Some k)"

definition cm4u_delay_cycles :: "platform \<Rightarrow> u32 \<Rightarrow> (nat \<Rightarrow> hw) \<Rightarrow> nat option" where
  "cm4u_delay_cycles p cycles t =
     (if DWT_defined p then
        (let start = DWT_CYCCNT (t 0)
         in delay_spin t start cycles 1)
      else Some 0)"

section \<open>Time-to-cycle conversion (cm4u\_core.h, lines 262--292)\<close>

text \<open>
  \<^verbatim>\<open>
  static inline uint32_t cm4u_us_to_cycles(uint32_t us, uint32_t core_clock_hz)
  {
      uint64_t tmp = (uint64_t)core_clock_hz * (uint64_t)us;
      tmp /= 1000000u;
      return (uint32_t)tmp;
  }
  \<close>
  The two casts widen to 64 bits (\<open>ucast\<close>), the product is a 64-bit product (it wraps
  modulo \<open>2 ^ 64\<close>), the division is the unsigned 64-bit division, and the last cast
  keeps the low 32 bits.
\<close>

definition cm4u_us_to_cycles :: "u32 \<Rightarrow> u32 \<Rightarrow> u32" where
  "cm4u_us_to_cycles us core_clock_hz =
     (let tmp = (ucast core_clock_hz :: u64) * (ucast us :: u64);
          tmp = tmp div 1000000
      in ucast tmp)"

text \<open>
  \<^verbatim>\<open>
  static inline uint32_t cm4u_ms_to_cycles(uint32_t ms, uint32_t core_clock_hz)
  {
      uint64_t tmp = (uint64_t)core_clock_hz * (uint64_t)ms;
      tmp /= 1000u;
      return (uint32_t)tmp;
  }
  \<close>
\<close>

definition cm4u_ms_to_cycles :: "u32 \<Rightarrow> u32 \<Rightarrow> u32" where
  "cm4u_ms_to_cycles ms core_clock_hz =
     (let tmp = (ucast core_clock_hz :: u64) * (ucast ms :: u64);
          tmp = tmp div 1000
      in ucast tmp)"

definition cm4u_delay_us :: "platform \<Rightarrow> u32 \<Rightarrow> u32 \<Rightarrow> (nat \<Rightarrow> hw) \<Rightarrow> nat option" where
  "cm4u_delay_us p us core_clock_hz t =
     (let cycles = cm4u_us_to_cycles us core_clock_hz
      in cm4u_delay_cycles p cycles t)"

definition cm4u_delay_ms :: "platform \<Rightarrow> u32 \<Rightarrow> u32 \<Rightarrow> (nat \<Rightarrow> hw) \<Rightarrow> nat option" where
  "cm4u_delay_ms p ms core_clock_hz t =
     (let cycles = cm4u_ms_to_cycles ms core_clock_hz
      in cm4u_delay_cycles p cycles t)"

section \<open>Profiling helper (cm4u\_core.h, lines 329--346)\<close>

text \<open>
  \<^verbatim>\<open>
  static inline uint32_t cm4u_profile_cycles_start(void)
  {
      return cm4u_dwt_get_cycles();
  }

  static inline uint32_t cm4u_profile_cycles_end(uint32_t start_cycles)
  {
      uint32_t now = cm4u_dwt_get_cycles();
      return (uint32_t)(now - start_cycles);
  }
  \<close>
  Each call reads the registers as they are when it runs, so the state is an argument
  of each.
\<close>

definition cm4u_profile_cycles_start :: "platform \<Rightarrow> hw \<Rightarrow> u32" where
  "cm4u_profile_cycles_start p s = cm4u_dwt_get_cycles p s"

definition cm4u_profile_cycles_end :: "platform \<Rightarrow> u32 \<Rightarrow> hw \<Rightarrow> u32" where
  "cm4u_profile_cycles_end p start_cycles s =
     (let now = cm4u_dwt_get_cycles p s
      in now - start_cycles)"

section \<open>The hardware counter\<close>

text \<open>
  The counter itself is hardware, not code of the header. Its behaviour is taken from
  the header's comment on \<open>cm4u_dwt_get_cycles\<close> (``wraps at 2^32'') and from the
  specification's data model: a 32-bit value incremented once per core clock cycle,
  wrapping silently from the maximum value back to zero. \<open>cyccnt_tick\<close> is one
  increment, \<open>cyccnt_after n c\<close> the counter value \<open>n\<close> cycles after it read \<open>c\<close>;
  \<open>n\<close> is a natural number, the true number of elapsed cycles.
\<close>

definition cyccnt_tick :: "u32 \<Rightarrow> u32" where
  "cyccnt_tick c = c + 1"

definition cyccnt_after :: "nat \<Rightarrow> u32 \<Rightarrow> u32" where
  "cyccnt_after n c = (cyccnt_tick ^^ n) c"

subsection \<open>Concrete platforms, states and traces\<close>

text \<open>
  A Cortex-M4 with the DWT unit (the mask values are those of \<open>core_cm4.h\<close>: bit 24 of
  \<open>DEMCR\<close>, bit 0 of \<open>DWT->CTRL\<close>), and a build in which neither \<open>DWT\<close> nor
  \<open>CoreDebug\<close> is defined.
\<close>

definition cortex_m4 :: platform where
  "cortex_m4 = \<lparr>DWT_defined = True, CoreDebug_defined = True,
                 CoreDebug_DEMCR_TRCENA_Msk = 0x01000000, DWT_CTRL_CYCCNTENA_Msk = 1\<rparr>"

definition no_dwt :: platform where
  "no_dwt = \<lparr>DWT_defined = False, CoreDebug_defined = False,
              CoreDebug_DEMCR_TRCENA_Msk = 0, DWT_CTRL_CYCCNTENA_Msk = 0\<rparr>"

text \<open>
  \<open>counting c\<close>: interrupts enabled, trace and counter enabled, the counter at \<open>c\<close>.
  \<open>ticking c d\<close>: a trace that starts with the counter at \<open>c\<close> and in which \<open>d\<close> cycles
  pass between two consecutive reads.
\<close>

definition counting :: "u32 \<Rightarrow> hw" where
  "counting c = \<lparr>PRIMASK = False, DEMCR = 0x01000000, DWT_CTRL = 1, DWT_CYCCNT = c\<rparr>"

definition ticking :: "u32 \<Rightarrow> nat \<Rightarrow> nat \<Rightarrow> hw" where
  "ticking c d k = counting (cyccnt_after (d * k) c)"

section \<open>Arithmetic of the conversions\<close>

lemma u32_product_fits_u64: "unat (a :: u32) * unat (b :: u32) < 2 ^ 64"
proof -
  have a: "unat a < 2 ^ 32" and b: "unat b < 2 ^ 32"
    using unsigned_less [of a] unsigned_less [of b] by simp_all
  have "unat a * unat b < 2 ^ 32 * 2 ^ 32"
    by (rule mult_strict_mono) (use a b in simp_all)
  then show ?thesis by simp
qed

lemma unat_widen_u32: "unat (ucast (a :: u32) :: u64) = unat a"
proof -
  have "unat a < 2 ^ 32"
    using unsigned_less [of a] by simp
  then have "unat a < 2 ^ 64"
    by simp
  then show ?thesis
    by (simp add: unsigned_ucast_eq take_bit_eq_mod)
qed

lemma unat_narrow_u64: "unat (ucast (w :: u64) :: u32) = unat w mod 2 ^ 32"
  by (simp add: unsigned_ucast_eq take_bit_eq_mod)

lemma unat_widened_product_mod:
  "unat ((ucast (a :: u32) :: u64) * (ucast (b :: u32) :: u64)) = (unat a * unat b) mod 2 ^ 64"
  by (simp add: unat_word_ariths unat_widen_u32)

lemma unat_widened_product:
  "unat ((ucast (a :: u32) :: u64) * (ucast (b :: u32) :: u64)) = unat a * unat b"
  using u32_product_fits_u64 [of a b] by (simp add: unat_widened_product_mod)

lemma unat_cm4u_us_to_cycles:
  "unat (cm4u_us_to_cycles us core_clock_hz) =
     (unat core_clock_hz * unat us div 1000000) mod 2 ^ 32"
  by (simp add: cm4u_us_to_cycles_def Let_def unat_narrow_u64 unat_div unat_widened_product)

lemma unat_cm4u_ms_to_cycles:
  "unat (cm4u_ms_to_cycles ms core_clock_hz) =
     (unat core_clock_hz * unat ms div 1000) mod 2 ^ 32"
  by (simp add: cm4u_ms_to_cycles_def Let_def unat_narrow_u64 unat_div unat_widened_product)

section \<open>Counter arithmetic\<close>

lemma cyccnt_after_eq: "cyccnt_after n c = c + of_nat n"
  by (induction n) (simp_all add: cyccnt_after_def cyccnt_tick_def)

lemma unat_of_nat_u32: "n < 2 ^ 32 \<Longrightarrow> unat (of_nat n :: u32) = n"
  by (simp add: unat_of_nat)

lemma unat_of_nat_u32_le: "unat (of_nat n :: u32) \<le> n"
  by (simp add: unat_of_nat)

lemma unat_sub_u32:
  "unat ((a :: u32) - b) = (unat a + 2 ^ 32 - unat b) mod 2 ^ 32"
proof -
  have a: "unat a < 2 ^ 32" and b: "unat b < 2 ^ 32"
    using unsigned_less [of a] unsigned_less [of b] by simp_all
  show ?thesis
  proof (cases "unat b \<le> unat a")
    case True
    then have "unat a + 2 ^ 32 - unat b = (unat a - unat b) + 1 * 2 ^ 32"
      by simp
    moreover have "unat a - unat b < 2 ^ 32"
      using a by simp
    ultimately have "(unat a + 2 ^ 32 - unat b) mod 2 ^ 32 = unat a - unat b"
      by (simp only: mod_mult_self1 mod_less)
    with True show ?thesis
      by (simp add: unat_sub_if')
  next
    case False
    then have "unat a + 2 ^ 32 - unat b < 2 ^ 32"
      by simp
    then have "(unat a + 2 ^ 32 - unat b) mod 2 ^ 32 = unat a + 2 ^ 32 - unat b"
      by (rule mod_less)
    with False show ?thesis
      by (simp add: unat_sub_if')
  qed
qed

section \<open>The spin loop\<close>

text \<open>
  A call of the loop that returns \<open>m\<close> started at an index \<open>k \<le> m\<close>, saw the difference
  reach \<open>cycles\<close> at read \<open>m\<close>, and saw it below \<open>cycles\<close> at every read before.
\<close>

lemma delay_spin_Some:
  assumes "delay_spin t start cycles k = Some m"
  shows "k \<le> m \<and> cycles \<le> DWT_CYCCNT (t m) - start \<and>
     (\<forall>j. k \<le> j \<and> j < m \<longrightarrow> DWT_CYCCNT (t j) - start < cycles)"
  using assms
proof (induction t start cycles k m rule: delay_spin.raw_induct [rotated, consumes 1])
  case (1 spin t start cycles k m)
  show ?case
  proof (cases "DWT_CYCCNT (t k) - start < cycles")
    case True
    with 1 have "spin t start cycles (Suc k) = Some m" by simp
    from 1(1) [OF this]
    have a: "Suc k \<le> m" and b: "cycles \<le> DWT_CYCCNT (t m) - start"
      and c: "\<And>j. Suc k \<le> j \<Longrightarrow> j < m \<Longrightarrow> DWT_CYCCNT (t j) - start < cycles"
      by simp_all
    have "DWT_CYCCNT (t j) - start < cycles" if "k \<le> j" "j < m" for j
    proof (cases "j = k")
      case True
      with \<open>DWT_CYCCNT (t k) - start < cycles\<close> show ?thesis by simp
    next
      case False
      with that have "Suc k \<le> j" by simp
      then show ?thesis using that c by simp
    qed
    with a b show ?thesis by simp
  next
    case False
    with 1(2) have "m = k" by simp
    with False show ?thesis by (auto simp: not_less)
  qed
qed

text \<open>Conversely, the loop returns at the first read at which the difference has reached \<open>cycles\<close>.\<close>

lemma delay_spin_exit:
  "k \<le> m \<Longrightarrow> cycles \<le> DWT_CYCCNT (t m) - start \<Longrightarrow>
   (\<forall>j. k \<le> j \<and> j < m \<longrightarrow> DWT_CYCCNT (t j) - start < cycles) \<Longrightarrow>
   delay_spin t start cycles k = Some m"
proof (induction "m - k" arbitrary: k)
  case 0
  then have "k = m" by simp
  moreover have "\<not> DWT_CYCCNT (t m) - start < cycles"
    using "0.prems"(2) by (simp add: not_less)
  ultimately show ?case by (subst delay_spin.simps) simp
next
  case (Suc d)
  then have lt: "k < m" by simp
  with Suc.prems have c: "DWT_CYCCNT (t k) - start < cycles" by simp
  have "delay_spin t start cycles (Suc k) = Some m"
  proof (rule Suc.hyps)
    show "d = m - Suc k" using Suc.hyps(2) by simp
    show "Suc k \<le> m" using lt by simp
    show "cycles \<le> DWT_CYCCNT (t m) - start" by (rule Suc.prems(2))
    show "\<forall>j. Suc k \<le> j \<and> j < m \<longrightarrow> DWT_CYCCNT (t j) - start < cycles"
      using Suc.prems(3) by simp
  qed
  with c show ?case by (subst delay_spin.simps) simp
qed

text \<open>
  With \<open>DWT\<close> defined, \<open>cm4u_delay_cycles\<close> returns as soon as some read sees the
  difference at or above \<open>cycles\<close>, and it spins forever when no read ever does.
\<close>

lemma delay_cycles_returns:
  assumes "DWT_defined p" and "1 \<le> m"
    and "cycles \<le> DWT_CYCCNT (t m) - DWT_CYCCNT (t 0)"
  shows "\<exists>k. 1 \<le> k \<and> k \<le> m \<and> cm4u_delay_cycles p cycles t = Some k"
proof -
  define Q where "Q j \<longleftrightarrow> 1 \<le> j \<and> cycles \<le> DWT_CYCCNT (t j) - DWT_CYCCNT (t 0)" for j
  define k where "k = (LEAST j. Q j)"
  have Qm: "Q m"
    using assms by (simp add: Q_def)
  then have Qk: "Q k" and le: "k \<le> m"
    unfolding k_def by (rule LeastI, rule Least_le)
  have before: "DWT_CYCCNT (t j) - DWT_CYCCNT (t 0) < cycles" if "1 \<le> j" "j < k" for j
  proof -
    have "\<not> Q j"
      using that(2) not_less_Least unfolding k_def by blast
    with that(1) show ?thesis
      by (simp add: Q_def not_le)
  qed
  have "delay_spin t (DWT_CYCCNT (t 0)) cycles 1 = Some k"
    using Qk before by (intro delay_spin_exit) (simp_all add: Q_def)
  with assms(1) Qk le show ?thesis
    by (auto simp: cm4u_delay_cycles_def Q_def)
qed

lemma delay_cycles_diverges:
  assumes "DWT_defined p"
    and "\<And>j. 1 \<le> j \<Longrightarrow> DWT_CYCCNT (t j) - DWT_CYCCNT (t 0) < cycles"
  shows "cm4u_delay_cycles p cycles t = None"
proof (rule ccontr)
  assume "cm4u_delay_cycles p cycles t \<noteq> None"
  then obtain k where "delay_spin t (DWT_CYCCNT (t 0)) cycles 1 = Some k"
    using assms(1) by (auto simp: cm4u_delay_cycles_def)
  from delay_spin_Some [OF this]
  have "1 \<le> k" and "cycles \<le> DWT_CYCCNT (t k) - DWT_CYCCNT (t 0)"
    by simp_all
  with assms(2) [of k] show False
    by simp
qed

section \<open>Properties of the conversions\<close>

text \<open>
  Claim C1. For every pair of 32-bit unsigned inputs \<open>us\<close> and \<open>core_clock_hz\<close> whose
  mathematical product is less than \<open>2 ^ 64\<close>, \<open>cm4u_us_to_cycles us core_clock_hz\<close> is
  \<open>floor (core_clock_hz * us / 1000000) mod 2 ^ 32\<close>. (By \<open>u32_product_fits_u64\<close> the
  product of two 32-bit values is always below \<open>2 ^ 64\<close>.)
\<close>

theorem us_to_cycles_floor:
  assumes "unat core_clock_hz * unat us < 2 ^ 64"
  shows "unat (cm4u_us_to_cycles us core_clock_hz) =
           (unat core_clock_hz * unat us div 1000000) mod 2 ^ 32"
proof -
  have "unat ((ucast core_clock_hz :: u64) * (ucast us :: u64)) = unat core_clock_hz * unat us"
    using assms by (simp add: unat_widened_product_mod)
  then show ?thesis
    by (simp add: cm4u_us_to_cycles_def Let_def unat_narrow_u64 unat_div)
qed

text \<open>
  At 4 GHz and 4000 s the quotient \<open>16000000000000\<close> does not fit in 32 bits and the
  result is its low 32 bits.
\<close>

theorem us_to_cycles_floor_witness:
  "unat (4000000000 :: u32) * unat (4000000000 :: u32) < 2 ^ 64 \<and>
   unat (cm4u_us_to_cycles 4000000000 4000000000) =
     (unat (4000000000 :: u32) * unat (4000000000 :: u32) div 1000000) mod 2 ^ 32 \<and>
   cm4u_us_to_cycles 4000000000 4000000000 = 1246822400"
proof -
  have h: "unat (4000000000 :: u32) * unat (4000000000 :: u32) < 2 ^ 64"
    by simp
  have "cm4u_us_to_cycles 4000000000 4000000000 = 1246822400"
    by (simp add: cm4u_us_to_cycles_def)
  with h us_to_cycles_floor [OF h] show ?thesis
    by blast
qed

text \<open>
  Claim C4. For all 32-bit unsigned inputs \<open>ms\<close> and \<open>core_clock_hz\<close>, with no
  precondition on their product, \<open>cm4u_ms_to_cycles ms core_clock_hz\<close> is
  \<open>floor (core_clock_hz * ms / 1000) mod 2 ^ 32\<close>.
\<close>

theorem ms_to_cycles_floor:
  "unat (cm4u_ms_to_cycles ms core_clock_hz) =
     (unat core_clock_hz * unat ms div 1000) mod 2 ^ 32"
  by (rule unat_cm4u_ms_to_cycles)

text \<open>
  Claim C9. At a core clock of 168 MHz, 10 microseconds are 1680 cycles and
  1 millisecond is 168000 cycles.
\<close>

theorem conversions_at_168MHz:
  "cm4u_us_to_cycles 10 168000000 = 1680 \<and> cm4u_ms_to_cycles 1 168000000 = 168000"
  by (simp add: cm4u_us_to_cycles_def cm4u_ms_to_cycles_def)

text \<open>
  Claim C10. When \<open>1000 * ms\<close> fits in 32 bits (\<open>ms \<le> (2 ^ 32 - 1) div 1000\<close>), the two
  conversions agree: \<open>cm4u_us_to_cycles (1000 * ms) core_clock_hz\<close> equals
  \<open>cm4u_ms_to_cycles ms core_clock_hz\<close>. The product \<open>1000 * ms\<close> is the 32-bit one.
\<close>

theorem us_ms_agree:
  assumes "unat ms \<le> (2 ^ 32 - 1) div 1000"
  shows "cm4u_us_to_cycles (1000 * ms) core_clock_hz = cm4u_ms_to_cycles ms core_clock_hz"
proof -
  have "unat (1000 :: u32) * unat ms < 2 ^ 32"
    using assms by simp
  then have us: "unat (1000 * ms) = 1000 * unat ms"
    using unat_mult_lem [of "1000 :: u32" ms] by simp
  have "unat core_clock_hz * (1000 * unat ms) div 1000000 = unat core_clock_hz * unat ms div 1000"
  proof -
    have "unat core_clock_hz * (1000 * unat ms) div 1000000
            = (1000 * (unat core_clock_hz * unat ms)) div (1000 * 1000)"
      by (simp add: mult.left_commute)
    also have "\<dots> = unat core_clock_hz * unat ms div 1000"
      by (rule div_mult_mult1) simp
    finally show ?thesis .
  qed
  then have "unat (cm4u_us_to_cycles (1000 * ms) core_clock_hz) =
             unat (cm4u_ms_to_cycles ms core_clock_hz)"
    by (simp add: unat_cm4u_us_to_cycles unat_cm4u_ms_to_cycles us)
  then show ?thesis
    by (simp add: word_unat_eq_iff)
qed

text \<open>The largest admissible \<open>ms\<close>, at 168 MHz; the common value is wrapped modulo \<open>2 ^ 32\<close>.\<close>

theorem us_ms_agree_witness:
  "unat (4294967 :: u32) \<le> (2 ^ 32 - 1) div 1000 \<and>
   cm4u_us_to_cycles (1000 * 4294967) 168000000 = cm4u_ms_to_cycles 4294967 168000000"
proof -
  have h: "unat (4294967 :: u32) \<le> (2 ^ 32 - 1) div 1000"
    by simp
  from h us_ms_agree [OF h, of 168000000] show ?thesis
    by blast
qed

section \<open>Properties of the profiling helper\<close>

text \<open>
  Claim C2. Let \<open>a\<close> be an earlier and \<open>b\<close> a later reading of the counter, \<open>n\<close> the true
  number of cycles elapsed between them, so that \<open>b\<close> is the counter value \<open>n\<close> cycles
  after \<open>a\<close>. If \<open>n < 2 ^ 32\<close>, then \<open>cm4u_profile_cycles_end a\<close>, called when the counter
  reads \<open>b\<close>, returns the 32-bit difference \<open>b - a\<close>, and that difference is \<open>n\<close>.
\<close>

theorem profile_end_elapsed:
  assumes "n < 2 ^ 32" and "b = cyccnt_after n a" and "cm4u_dwt_get_cycles p s = b"
  shows "cm4u_profile_cycles_end p a s = b - a \<and> unat (b - a) = n"
proof -
  have "b - a = of_nat n"
    using assms(2) by (simp add: cyccnt_after_eq)
  then have "unat (b - a) = n"
    using assms(1) by (simp add: unat_of_nat_u32)
  with assms(3) show ?thesis
    by (simp add: cm4u_profile_cycles_end_def)
qed

text \<open>A thousand cycles across the wrap: from \<open>0xFFFFFF00\<close> to \<open>0x000002E8\<close>.\<close>

theorem profile_end_elapsed_witness:
  "(1000 :: nat) < 2 ^ 32 \<and> (0x000002E8 :: u32) = cyccnt_after 1000 0xFFFFFF00 \<and>
   cm4u_dwt_get_cycles cortex_m4 (counting 0x000002E8) = 0x000002E8 \<and>
   cm4u_profile_cycles_end cortex_m4 0xFFFFFF00 (counting 0x000002E8) = 0x000002E8 - 0xFFFFFF00 \<and>
   unat ((0x000002E8 :: u32) - 0xFFFFFF00) = 1000"
proof -
  have h1: "(1000 :: nat) < 2 ^ 32"
    by simp
  have h2: "(0x000002E8 :: u32) = cyccnt_after 1000 0xFFFFFF00"
    by (simp add: cyccnt_after_eq)
  have h3: "cm4u_dwt_get_cycles cortex_m4 (counting 0x000002E8) = 0x000002E8"
    by (simp add: cm4u_dwt_get_cycles_def cortex_m4_def counting_def)
  from h1 h2 h3 profile_end_elapsed [OF h1 h2 h3] show ?thesis
    by blast
qed

text \<open>
  Claim C5, amended. If the counter read \<open>0xFFFFFFF0\<close> and has since advanced by
  exactly 32 increments, it reads \<open>0x00000010\<close>, and \<open>cm4u_profile_cycles_end\<close> called
  with the start value \<open>0xFFFFFFF0\<close> yields 32.
\<close>

theorem profile_end_across_wrap:
  assumes "cm4u_dwt_get_cycles p s = cyccnt_after 32 0xFFFFFFF0"
  shows "cm4u_dwt_get_cycles p s = 0x00000010 \<and> cm4u_profile_cycles_end p 0xFFFFFFF0 s = 32"
  using assms by (simp add: cyccnt_after_eq cm4u_profile_cycles_end_def)

theorem profile_end_across_wrap_witness:
  "cm4u_dwt_get_cycles cortex_m4 (counting 0x00000010) = cyccnt_after 32 0xFFFFFFF0 \<and>
   cm4u_dwt_get_cycles cortex_m4 (counting 0x00000010) = 0x00000010 \<and>
   cm4u_profile_cycles_end cortex_m4 0xFFFFFFF0 (counting 0x00000010) = 32"
proof -
  have h: "cm4u_dwt_get_cycles cortex_m4 (counting 0x00000010) = cyccnt_after 32 0xFFFFFFF0"
    by (simp add: cm4u_dwt_get_cycles_def cortex_m4_def counting_def cyccnt_after_eq)
  from h profile_end_across_wrap [OF h] show ?thesis
    by blast
qed

text \<open>
  Claim C5 as stated names \<open>0x0000000F\<close> as the reading 32 increments after
  \<open>0xFFFFFFF0\<close>. The counter does not read that value then, and with the counter at
  \<open>0x0000000F\<close> the helper yields 31, not 32.
\<close>

theorem reading_0F_is_31_cycles:
  "cyccnt_after 32 0xFFFFFFF0 \<noteq> 0x0000000F \<and>
   cm4u_profile_cycles_end cortex_m4 0xFFFFFFF0 (counting 0x0000000F) = 31 \<and>
   cm4u_profile_cycles_end cortex_m4 0xFFFFFFF0 (counting 0x0000000F) \<noteq> 32"
  by (simp add: cyccnt_after_eq cm4u_profile_cycles_end_def cm4u_dwt_get_cycles_def
      cortex_m4_def counting_def)

text \<open>
  Claim C7. If the counter does not advance between the read of
  \<open>cm4u_profile_cycles_start\<close> (in state \<open>s\<close>) and the read of \<open>cm4u_profile_cycles_end\<close>
  (in state \<open>s'\<close>), then \<open>cm4u_profile_cycles_end\<close> applied to the start value returns 0;
  in general \<open>cm4u_profile_cycles_end start\<close> returns the current counter reading minus
  \<open>start\<close> in 32-bit unsigned arithmetic, that is modulo \<open>2 ^ 32\<close>.
\<close>

theorem profile_end_is_wrapping_difference:
  assumes "DWT_CYCCNT s' = DWT_CYCCNT s"
  shows "cm4u_profile_cycles_end p (cm4u_profile_cycles_start p s) s' = 0 \<and>
         cm4u_profile_cycles_end p start s' = cm4u_dwt_get_cycles p s' - start \<and>
         unat (cm4u_profile_cycles_end p start s') =
           (unat (cm4u_dwt_get_cycles p s') + 2 ^ 32 - unat start) mod 2 ^ 32"
  using assms
  by (simp add: cm4u_profile_cycles_end_def cm4u_profile_cycles_start_def
      cm4u_dwt_get_cycles_def unat_sub_u32)

text \<open>
  The counter stands at 7 at both reads while PRIMASK changes in between; and with the
  counter at 7 a start value of 10 gives \<open>2 ^ 32 - 3\<close>.
\<close>

theorem profile_end_is_wrapping_difference_witness:
  "DWT_CYCCNT (disable_irq (counting 7)) = DWT_CYCCNT (counting 7) \<and>
   cm4u_profile_cycles_end cortex_m4 (cm4u_profile_cycles_start cortex_m4 (counting 7))
     (disable_irq (counting 7)) = 0 \<and>
   cm4u_profile_cycles_end cortex_m4 10 (disable_irq (counting 7)) = 4294967293"
proof -
  have h: "DWT_CYCCNT (disable_irq (counting 7)) = DWT_CYCCNT (counting 7)"
    by (simp add: disable_irq_def)
  have g: "cm4u_dwt_get_cycles cortex_m4 (disable_irq (counting 7)) = 7"
    by (simp add: cm4u_dwt_get_cycles_def cortex_m4_def disable_irq_def counting_def)
  from profile_end_is_wrapping_difference [OF h, of cortex_m4 10]
  have "cm4u_profile_cycles_end cortex_m4 (cm4u_profile_cycles_start cortex_m4 (counting 7))
          (disable_irq (counting 7)) = 0"
    and "cm4u_profile_cycles_end cortex_m4 10 (disable_irq (counting 7)) =
          cm4u_dwt_get_cycles cortex_m4 (disable_irq (counting 7)) - 10"
    by blast+
  with h g show ?thesis
    by simp
qed

section \<open>Properties of the counter initialisation\<close>

text \<open>
  With both macros defined the initialisation reports success, zeroes the counter, sets
  the enable bits and leaves the interrupt mask alone.
\<close>

lemma dwt_init_present:
  assumes "DWT_defined p" and "CoreDebug_defined p"
  shows "fst (cm4u_dwt_init p s) \<and>
         DWT_CYCCNT (snd (cm4u_dwt_init p s)) = 0 \<and>
         DWT_CTRL (snd (cm4u_dwt_init p s)) = DWT_CTRL s OR DWT_CTRL_CYCCNTENA_Msk p \<and>
         (CoreDebug_DEMCR_TRCENA_Msk p \<noteq> 0 \<longrightarrow>
            DEMCR (snd (cm4u_dwt_init p s)) AND CoreDebug_DEMCR_TRCENA_Msk p \<noteq> 0) \<and>
         PRIMASK (snd (cm4u_dwt_init p s)) = PRIMASK s"
  using assms by (simp add: cm4u_dwt_init_def Let_def word_ao_absorbs)

text \<open>
  Claim C6. In a build without the counter (\<open>DWT\<close> not defined), \<open>cm4u_dwt_init\<close> returns
  \<open>false\<close> and leaves every register as it was, and \<open>cm4u_dwt_get_cycles\<close> returns the
  sentinel 0 whatever the state \<open>s'\<close> of the registers at the time of the call.
\<close>

theorem dwt_absent:
  assumes "\<not> DWT_defined p"
  shows "cm4u_dwt_init p s = (False, s) \<and> cm4u_dwt_get_cycles p s' = 0"
  using assms by (simp add: cm4u_dwt_init_def cm4u_dwt_get_cycles_def)

theorem dwt_absent_witness:
  "\<not> DWT_defined no_dwt \<and>
   cm4u_dwt_init no_dwt (counting 5) = (False, counting 5) \<and>
   cm4u_dwt_get_cycles no_dwt (counting 9) = 0"
proof -
  have h: "\<not> DWT_defined no_dwt"
    by (simp add: no_dwt_def)
  from h dwt_absent [OF h, of "counting 5" "counting 9"] show ?thesis
    by blast
qed

section \<open>Properties of the critical section\<close>

text \<open>
  Claim C8. From every state \<open>s\<close>, \<open>cm4u_critical_enter\<close> returns the value of PRIMASK
  that held before the call and leaves PRIMASK set (interrupts disabled);
  \<open>cm4u_critical_exit\<close> with the returned value, run in the state \<open>cm4u_critical_enter\<close>
  left, gives back the state \<open>s\<close>, and run in any state \<open>t\<close> it restores the PRIMASK of
  \<open>s\<close>.
\<close>

theorem critical_section_round_trip:
  "fst (cm4u_critical_enter s) = get_PRIMASK s \<and>
   PRIMASK (snd (cm4u_critical_enter s)) \<and>
   cm4u_critical_exit (fst (cm4u_critical_enter s)) (snd (cm4u_critical_enter s)) = s \<and>
   PRIMASK (cm4u_critical_exit (fst (cm4u_critical_enter s)) t) = PRIMASK s"
  by (simp add: cm4u_critical_enter_def cm4u_critical_exit_def get_PRIMASK_def
      set_PRIMASK_def disable_irq_def Let_def)

section \<open>Properties of the busy-wait\<close>

text \<open>
  Claim C3, amended. In a build with the counter (\<open>DWT\<close> defined), for every 32-bit
  \<open>cycles\<close>: if \<open>cm4u_delay_cycles cycles\<close> returns, having evaluated its loop condition
  \<open>k\<close> times, then \<open>k \<ge> 1\<close>, the 32-bit difference between the reading at its last
  evaluation and the start reading is at least \<open>cycles\<close>, that difference was below
  \<open>cycles\<close> at every earlier evaluation, and any true number \<open>e\<close> of elapsed cycles that
  accounts for the last reading is at least \<open>cycles\<close>. (\<open>delay_cycles_returns\<close> and
  \<open>delay_cycles_diverges\<close> say when the call returns at all.)
\<close>

theorem delay_cycles_not_early:
  assumes "DWT_defined p" and "cm4u_delay_cycles p cycles t = Some k"
  shows "1 \<le> k \<and>
         cycles \<le> DWT_CYCCNT (t k) - DWT_CYCCNT (t 0) \<and>
         (\<forall>j. 1 \<le> j \<and> j < k \<longrightarrow> DWT_CYCCNT (t j) - DWT_CYCCNT (t 0) < cycles) \<and>
         (\<forall>e. DWT_CYCCNT (t k) = cyccnt_after e (DWT_CYCCNT (t 0)) \<longrightarrow> unat cycles \<le> e)"
proof -
  from assms have "delay_spin t (DWT_CYCCNT (t 0)) cycles 1 = Some k"
    by (simp add: cm4u_delay_cycles_def)
  from delay_spin_Some [OF this]
  have k: "1 \<le> k" and reached: "cycles \<le> DWT_CYCCNT (t k) - DWT_CYCCNT (t 0)"
    and before: "\<forall>j. 1 \<le> j \<and> j < k \<longrightarrow> DWT_CYCCNT (t j) - DWT_CYCCNT (t 0) < cycles"
    by simp_all
  have "unat cycles \<le> e" if "DWT_CYCCNT (t k) = cyccnt_after e (DWT_CYCCNT (t 0))" for e
  proof -
    from that have "DWT_CYCCNT (t k) - DWT_CYCCNT (t 0) = of_nat e"
      by (simp add: cyccnt_after_eq)
    with reached have "unat cycles \<le> unat (of_nat e :: u32)"
      by (simp add: word_le_nat_alt)
    also have "\<dots> \<le> e"
      by (rule unat_of_nat_u32_le)
    finally show ?thesis .
  qed
  with k reached before show ?thesis
    by blast
qed

text \<open>
  Eight cycles per iteration, starting 16 cycles before the counter wraps: the call
  asked for 32 cycles returns at its fourth evaluation of the loop condition, not at
  the third.
\<close>

theorem delay_cycles_not_early_witness:
  "DWT_defined cortex_m4 \<and>
   cm4u_delay_cycles cortex_m4 32 (ticking 0xFFFFFFF0 8) = Some 4 \<and>
   (32 :: u32) \<le> DWT_CYCCNT (ticking 0xFFFFFFF0 8 4) - DWT_CYCCNT (ticking 0xFFFFFFF0 8 0) \<and>
   DWT_CYCCNT (ticking 0xFFFFFFF0 8 3) - DWT_CYCCNT (ticking 0xFFFFFFF0 8 0) < 32"
proof -
  have h1: "DWT_defined cortex_m4"
    by (simp add: cortex_m4_def)
  have h2: "cm4u_delay_cycles cortex_m4 32 (ticking 0xFFFFFFF0 8) = Some 4"
    by (simp add: cm4u_delay_cycles_def cortex_m4_def ticking_def counting_def
        cyccnt_after_eq delay_spin.simps)
  from delay_cycles_not_early [OF h1 h2]
  have "(32 :: u32) \<le> DWT_CYCCNT (ticking 0xFFFFFFF0 8 4) - DWT_CYCCNT (ticking 0xFFFFFFF0 8 0)"
    and "\<forall>j. 1 \<le> j \<and> j < 4 \<longrightarrow>
           DWT_CYCCNT (ticking 0xFFFFFFF0 8 j) - DWT_CYCCNT (ticking 0xFFFFFFF0 8 0) < 32"
    by blast+
  then show ?thesis
    using h1 h2 by simp
qed

text \<open>
  Claim C3 as stated covers every build. Without \<open>DWT\<close> the function has no loop: asked
  for 5 cycles it returns at once, before any loop read, although the counter has not
  moved from its start value.
\<close>

theorem delay_cycles_without_dwt_returns_at_once:
  "cm4u_delay_cycles no_dwt 5 (ticking 0 8) = Some 0 \<and>
   DWT_CYCCNT (ticking 0 8 0) - DWT_CYCCNT (ticking 0 8 0) < 5 \<and>
   cm4u_dwt_get_cycles no_dwt (ticking 0 8 0) - cm4u_dwt_get_cycles no_dwt (ticking 0 8 0) < 5"
  by (simp add: cm4u_delay_cycles_def no_dwt_def)

end
